theory Spec2Isabelle
  imports Main "HOL-Library.AList"
begin

section \<open>Data model of \<open>account_manager.py\<close>\<close>

text \<open>
  Identifiers (\<open>UUID4\<close> fields, \<open>klrid\<close>, SPEI internal ids) are strings that pydantic has
  already accepted; a response whose identifier or status string pydantic rejects makes the
  constructor raise and is outside this model. The thirteen card statuses and the two card
  types are the two \<open>Literal\<close> enumerations of \<open>UserCard\<close>.
\<close>

type_synonym uuid = string

datatype card_status =
    ACTIVATED_NO_PIN | ACTIVE | BROKEN | CANCELED | CREATED | DEACTIVATED | DELETED
  | FROZEN | FROZEN_PERMANENT | LOST | REORDERED_KLAYUDA | SHIPPED | STOLEN

datatype card_type = PHYSICAL | VIRTUAL

text \<open>\<open>card_targets = Literal['ACTIVE', 'FROZEN', 'FROZEN_PERMANENT']\<close>\<close>

datatype card_target = T_ACTIVE | T_FROZEN | T_FROZEN_PERMANENT

record UserCard =
  card_user_id :: "uuid option"
  klrid :: uuid
  card_status :: card_status
  card_type :: card_type

record UserAccount =
  user_id :: uuid
  parabilium_account_id :: string
  active_spei :: "uuid list"
  has_mobile_access :: "bool option"
  cards :: "UserCard list"

section \<open>The backend services\<close>

text \<open>
  Every HTTP request of the module is one \<open>call\<close>, recorded with its outcome (\<open>True\<close> when
  \<open>raise_for_status\<close> did not raise \<open>HTTPError\<close>). The log of a run is the list of its calls
  in the order they were issued. The services are a \<open>gateway\<close>: for each kind of request a
  function of the log so far and of the request's arguments giving the response, so a
  service may answer the same request differently at different times. Exceptions of
  \<open>requests\<close> other than \<open>HTTPError\<close> (connection errors, timeouts) are not caught by the
  module and are outside the model.
\<close>

datatype call =
    CheckAccountProviders uuid bool
  | CheckCards "string option" bool
  | UpdateCardStatus uuid card_target bool
  | DeleteVirtualCard uuid bool
  | CheckMobileAccess "uuid list" bool
  | BlockMobileAccess uuid bool
  | BlockSpei uuid uuid bool

text \<open>One entry of \<open>account_providers['accounts']\<close>, read with \<open>account.get(key, None)\<close>.\<close>

record account_entry =
  providerId :: "string option"
  internalId :: "string option"

text \<open>One entry of the card listing: \<open>card['id']\<close>, \<open>card['status']\<close>, \<open>card['cardType']\<close>.\<close>

record card_entry =
  ce_id :: uuid
  ce_status :: card_status
  ce_cardType :: card_type

record gateway =
  gw_account_providers :: "call list \<Rightarrow> uuid \<Rightarrow> account_entry list option"
  gw_cards :: "call list \<Rightarrow> string option \<Rightarrow> card_entry list option"
  gw_update_card_status :: "call list \<Rightarrow> uuid \<Rightarrow> card_target \<Rightarrow> bool"
  gw_delete_virtual_card :: "call list \<Rightarrow> uuid \<Rightarrow> bool"
  gw_is_enabled :: "call list \<Rightarrow> uuid list \<Rightarrow> (uuid \<times> bool) list option"
  gw_lock_mobile_access :: "call list \<Rightarrow> uuid \<Rightarrow> bool"
  gw_deactivate_spei :: "call list \<Rightarrow> uuid \<Rightarrow> uuid \<Rightarrow> bool"

text \<open>The module-level request wrappers: each returns its result and the extended log.\<close>

definition check_account_providers ::
  "gateway \<Rightarrow> call list \<Rightarrow> uuid \<Rightarrow> account_entry list option \<times> call list" where
  "check_account_providers gw log u =
     (let res = gw_account_providers gw log u
      in (res, log @ [CheckAccountProviders u (res \<noteq> None)]))"

definition check_cards ::
  "gateway \<Rightarrow> call list \<Rightarrow> string option \<Rightarrow> card_entry list option \<times> call list" where
  "check_cards gw log pid =
     (let res = gw_cards gw log pid
      in (res, log @ [CheckCards pid (res \<noteq> None)]))"

definition update_card_status ::
  "gateway \<Rightarrow> call list \<Rightarrow> uuid \<Rightarrow> card_target \<Rightarrow> bool \<times> call list" where
  "update_card_status gw log k target =
     (let was_blocked = gw_update_card_status gw log k target
      in (was_blocked, log @ [UpdateCardStatus k target was_blocked]))"

definition delete_virtual_card :: "gateway \<Rightarrow> call list \<Rightarrow> uuid \<Rightarrow> bool \<times> call list" where
  "delete_virtual_card gw log k =
     (let was_deleted = gw_delete_virtual_card gw log k
      in (was_deleted, log @ [DeleteVirtualCard k was_deleted]))"

definition block_mobile_access :: "gateway \<Rightarrow> call list \<Rightarrow> uuid \<Rightarrow> bool \<times> call list" where
  "block_mobile_access gw log u =
     (let response = gw_lock_mobile_access gw log u
      in (response, log @ [BlockMobileAccess u response]))"

definition block_spei :: "gateway \<Rightarrow> call list \<Rightarrow> uuid \<Rightarrow> uuid \<Rightarrow> bool \<times> call list" where
  "block_spei gw log u spei_internal_id =
     (let response = gw_deactivate_spei gw log u spei_internal_id
      in (response, log @ [BlockSpei u spei_internal_id response]))"

section \<open>Card transitions (\<open>UserCard\<close>)\<close>

text \<open>
  A method that mutates \<open>self\<close> returns the card after the call and the extended log.
  \<open>delete\<close> has no \<open>else\<close> branch: on a card that is not \<open>VIRTUAL\<close> it does nothing.
\<close>

definition delete :: "gateway \<Rightarrow> call list \<Rightarrow> UserCard \<Rightarrow> UserCard \<times> call list" where
  "delete gw log c =
     (if card_type c = VIRTUAL then
        (case delete_virtual_card gw log (klrid c) of
           (was_deleted, log') \<Rightarrow>
             (if was_deleted then c\<lparr>card_status := CANCELED\<rparr> else c, log'))
      else (c, log))"

definition frozen_permanent :: "gateway \<Rightarrow> call list \<Rightarrow> UserCard \<Rightarrow> UserCard \<times> call list" where
  "frozen_permanent gw log c =
     (case update_card_status gw log (klrid c) T_FROZEN_PERMANENT of
        (successful, log') \<Rightarrow>
          (if successful then c\<lparr>card_status := FROZEN_PERMANENT\<rparr> else c, log'))"

definition frozen :: "gateway \<Rightarrow> call list \<Rightarrow> UserCard \<Rightarrow> UserCard \<times> call list" where
  "frozen gw log c =
     (case update_card_status gw log (klrid c) T_FROZEN of
        (successful, log') \<Rightarrow>
          (if successful then c\<lparr>card_status := FROZEN\<rparr> else c, log'))"

definition active :: "gateway \<Rightarrow> call list \<Rightarrow> UserCard \<Rightarrow> UserCard \<times> call list" where
  "active gw log c =
     (case update_card_status gw log (klrid c) T_ACTIVE of
        (successful, log') \<Rightarrow>
          (if successful then c\<lparr>card_status := ACTIVE\<rparr> else c, log'))"

definition cancel :: "gateway \<Rightarrow> call list \<Rightarrow> UserCard \<Rightarrow> UserCard \<times> call list" where
  "cancel gw log c =
     (if card_type c = VIRTUAL then delete gw log c else frozen_permanent gw log c)"

section \<open>Derived queries (\<open>UserAccount\<close>)\<close>

text \<open>
  Both methods test \<open>card.card_status in ['ACTIVE', 'FROZEN', 'ACTIVATED_NO_PIN', 'CREATED',
  'SHIPPED']\<close>, each with a literal list of its own.
\<close>

record services_summary =
  s_user_id :: uuid
  s_has_mobile_access :: "bool option"
  s_has_active_spei :: bool
  s_has_active_cards :: bool

text \<open>The \<open>for ... break\<close> loop of \<open>check_active_services\<close>, started with the flag \<open>False\<close>.\<close>

fun has_active_cards_loop :: "UserCard list \<Rightarrow> bool \<Rightarrow> bool" where
  "has_active_cards_loop [] flag = flag"
| "has_active_cards_loop (c # rest) flag =
     (if card_status c \<in> set [ACTIVE, FROZEN, ACTIVATED_NO_PIN, CREATED, SHIPPED]
      then True
      else has_active_cards_loop rest flag)"

definition check_active_services :: "UserAccount \<Rightarrow> services_summary" where
  "check_active_services u =
     \<lparr> s_user_id = user_id u,
       s_has_mobile_access = has_mobile_access u,
       s_has_active_spei = (length (active_spei u) > 0),
       s_has_active_cards = has_active_cards_loop (cards u) False \<rparr>"

text \<open>The loop of \<open>get_active_cards\<close>, appending to the accumulator \<open>active_cards\<close>.\<close>

fun get_active_cards_loop :: "UserCard list \<Rightarrow> UserCard list \<Rightarrow> UserCard list" where
  "get_active_cards_loop [] active_cards = active_cards"
| "get_active_cards_loop (c # rest) active_cards =
     (if card_status c \<in> set [ACTIVE, FROZEN, ACTIVATED_NO_PIN, CREATED, SHIPPED]
      then get_active_cards_loop rest (active_cards @ [c])
      else get_active_cards_loop rest active_cards)"

definition get_active_cards :: "UserAccount \<Rightarrow> UserCard list" where
  "get_active_cards u = get_active_cards_loop (cards u) []"

text \<open>
  The active predicate as the specification words it: a card is active iff its status is one
  of \<open>ACTIVE\<close>, \<open>FROZEN\<close>, \<open>ACTIVATED_NO_PIN\<close>, \<open>CREATED\<close>, \<open>SHIPPED\<close>.
\<close>

definition spec_active :: "UserCard \<Rightarrow> bool" where
  "spec_active c =
     (case card_status c of
        ACTIVE \<Rightarrow> True | FROZEN \<Rightarrow> True | ACTIVATED_NO_PIN \<Rightarrow> True
      | CREATED \<Rightarrow> True | SHIPPED \<Rightarrow> True
      | BROKEN \<Rightarrow> False | CANCELED \<Rightarrow> False | DEACTIVATED \<Rightarrow> False | DELETED \<Rightarrow> False
      | FROZEN_PERMANENT \<Rightarrow> False | LOST \<Rightarrow> False | REORDERED_KLAYUDA \<Rightarrow> False
      | STOLEN \<Rightarrow> False)"

section \<open>Cancellation (\<open>AccountManager\<close>)\<close>

text \<open>
  \<open>if user.has_mobile_access\<close> is false for \<open>None\<close> and for \<open>False\<close>; only then is the
  request skipped.
\<close>

definition block_mobile_user_account ::
  "gateway \<Rightarrow> call list \<Rightarrow> UserAccount \<Rightarrow> UserAccount \<times> call list" where
  "block_mobile_user_account gw log user =
     (if has_mobile_access user = Some True then
        (case block_mobile_access gw log (user_id user) of
           (was_blocked, log') \<Rightarrow>
             (if was_blocked then user\<lparr>has_mobile_access := Some False\<rparr> else user, log'))
      else (user, log))"

text \<open>
  \<open>for spei_id in user.active_spei\<close> iterates the live list: the list iterator keeps an
  index \<open>i\<close>, stops when \<open>i\<close> reaches the current length, and otherwise yields the element
  at \<open>i\<close> and advances. The body removes the first occurrence of \<open>spei_id\<close> from the same
  list (\<open>list.remove\<close>) when the request succeeded.
\<close>

function block_spei_loop ::
  "gateway \<Rightarrow> uuid \<Rightarrow> nat \<Rightarrow> uuid list \<Rightarrow> call list \<Rightarrow> uuid list \<times> call list" where
  "block_spei_loop gw u i spei log =
     (if i < length spei then
        (let spei_id = spei ! i;
             was_blocked = fst (block_spei gw log u spei_id);
             log' = snd (block_spei gw log u spei_id)
         in block_spei_loop gw u (Suc i)
              (if was_blocked then remove1 spei_id spei else spei) log')
      else (spei, log))"
  by pat_completeness auto
termination
  by (relation "measure (\<lambda>(gw, u, i, spei, log). length spei - i)")
     (auto simp: length_remove1)

definition block_spei_user_account ::
  "gateway \<Rightarrow> call list \<Rightarrow> UserAccount \<Rightarrow> UserAccount \<times> call list" where
  "block_spei_user_account gw log user =
     (case block_spei_loop gw (user_id user) 0 (active_spei user) log of
        (spei', log') \<Rightarrow> (user\<lparr>active_spei := spei'\<rparr>, log'))"

text \<open>
  \<open>get_active_cards\<close> returns references to the card objects of \<open>user.cards\<close>, and
  \<open>card.cancel()\<close> mutates the object it is called on. A reference is modelled as the
  position of the card in \<open>user.cards\<close>: \<open>active_card_refs\<close> is the loop of
  \<open>get_active_cards\<close> collecting positions, and the cancellation loop writes each card back
  at its position.
\<close>

fun active_card_refs_loop :: "UserCard list \<Rightarrow> nat \<Rightarrow> nat list \<Rightarrow> nat list" where
  "active_card_refs_loop [] i active_cards = active_cards"
| "active_card_refs_loop (c # rest) i active_cards =
     (if card_status c \<in> set [ACTIVE, FROZEN, ACTIVATED_NO_PIN, CREATED, SHIPPED]
      then active_card_refs_loop rest (Suc i) (active_cards @ [i])
      else active_card_refs_loop rest (Suc i) active_cards)"

definition active_card_refs :: "UserAccount \<Rightarrow> nat list" where
  "active_card_refs u = active_card_refs_loop (cards u) 0 []"

fun cancel_cards_loop ::
  "gateway \<Rightarrow> call list \<Rightarrow> nat list \<Rightarrow> UserCard list \<Rightarrow> UserCard list \<times> call list" where
  "cancel_cards_loop gw log [] cs = (cs, log)"
| "cancel_cards_loop gw log (r # refs) cs =
     (case cancel gw log (cs ! r) of
        (c', log') \<Rightarrow> cancel_cards_loop gw log' refs (cs[r := c']))"

definition block_cards_user_account ::
  "gateway \<Rightarrow> call list \<Rightarrow> UserAccount \<Rightarrow> UserAccount \<times> call list" where
  "block_cards_user_account gw log user =
     (case cancel_cards_loop gw log (active_card_refs user) (cards user) of
        (cs', log') \<Rightarrow> (user\<lparr>cards := cs'\<rparr>, log'))"

definition cancel_account ::
  "gateway \<Rightarrow> call list \<Rightarrow> UserAccount \<Rightarrow> UserAccount \<times> call list" where
  "cancel_account gw log user =
     (case block_mobile_user_account gw log user of
        (user1, log1) \<Rightarrow>
          (case block_spei_user_account gw log1 user1 of
             (user2, log2) \<Rightarrow> block_cards_user_account gw log2 user2))"

declare block_spei_loop.simps [simp del]

section \<open>Fetching (\<open>AccountManager\<close>)\<close>

text \<open>
  The variadic parameter \<open>*user_id\<close> of the fetch methods is the list \<open>user_ids\<close>.

  The exceptions the modelled code can raise: \<open>KeyError\<close> from \<open>mobile_access[user]\<close>,
  pydantic's \<open>ValidationError\<close> from \<open>UserAccount(parabilium_account_id=None, ...)\<close>,
  \<open>ZeroDivisionError\<close> from \<open>// batch_size\<close>, \<open>ValueError\<close> from \<open>Pool(processes=0)\<close> and
  \<open>AttributeError\<close> from \<open>user.user_id\<close> on \<open>None\<close>. A function that can raise returns
  \<open>Inl\<close> of the error or \<open>Inr\<close> of its value, beside the log of the requests made so far.
\<close>

datatype error = KeyError | ValidationError | ZeroDivisionError | ValueError | AttributeError

text \<open>
  \<open>check_mobile_access\<close>: \<open>while current_batch := list(islice(users, batch_size))\<close> takes the
  next \<open>batch_size\<close> ids from the iterator and stops at the first empty batch. \<open>results\<close> is a
  dict from id to \<open>Optional[bool]\<close>. The batch size is a natural number: a negative one makes
  \<open>islice\<close> raise and is outside the model.
\<close>

type_synonym mobile_results = "uuid \<rightharpoonup> bool option"

function check_mobile_access_loop ::
  "gateway \<Rightarrow> nat \<Rightarrow> uuid list \<Rightarrow> mobile_results \<Rightarrow> call list \<Rightarrow> mobile_results \<times> call list"
  where
  "check_mobile_access_loop gw batch_size users results log =
     (if take batch_size users = [] then (results, log)
      else
        (case gw_is_enabled gw log (take batch_size users) of
           Some entries \<Rightarrow>
             check_mobile_access_loop gw batch_size (drop batch_size users)
               (fold (\<lambda>entry res. res(fst entry \<mapsto> Some (snd entry))) entries results)
               (log @ [CheckMobileAccess (take batch_size users) True])
         | None \<Rightarrow>
             check_mobile_access_loop gw batch_size (drop batch_size users)
               (fold (\<lambda>user res. res(user \<mapsto> None)) (take batch_size users) results)
               (log @ [CheckMobileAccess (take batch_size users) False])))"
  by pat_completeness auto
termination
  by (relation "measure (\<lambda>(gw, batch_size, users, results, log). length users)") auto

declare check_mobile_access_loop.simps [simp del]

definition check_mobile_access ::
  "gateway \<Rightarrow> call list \<Rightarrow> uuid list \<Rightarrow> nat \<Rightarrow> mobile_results \<times> call list" where
  "check_mobile_access gw log user_ids batch_size =
     check_mobile_access_loop gw batch_size user_ids Map.empty log"

text \<open>
  The scan of \<open>account_providers['accounts']\<close> in \<open>create_user_instance\<close>, started with
  \<open>parabilium_internal_id = 'not_found'\<close> and \<open>spei = []\<close>. The listing is the list under the
  key \<open>'accounts'\<close>.
\<close>

fun scan_accounts ::
  "account_entry list \<Rightarrow> string option \<Rightarrow> uuid list \<Rightarrow> string option \<times> uuid list" where
  "scan_accounts [] parabilium_internal_id spei = (parabilium_internal_id, spei)"
| "scan_accounts (account # rest) parabilium_internal_id spei =
     scan_accounts rest
       (if providerId account = Some ''PARABILIUM'' then internalId account
        else parabilium_internal_id)
       (if providerId account = Some ''SPEI'' then
          (case internalId account of
             Some spei_internal_id \<Rightarrow> spei @ [spei_internal_id]
           | None \<Rightarrow> spei)
        else spei)"

definition make_card :: "uuid \<Rightarrow> card_entry \<Rightarrow> UserCard" where
  "make_card user e =
     \<lparr> card_user_id = Some user, klrid = ce_id e, card_status = ce_status e,
       card_type = ce_cardType e \<rparr>"

text \<open>
  A dict whose order of keys matters is an association list; \<open>d[k] = v\<close> is \<open>AList.update\<close>
  (an existing key keeps its position, a new key goes to the end). \<open>instances\<close> maps a user id
  to a \<open>UserAccount\<close> or to \<open>None\<close>.
\<close>

type_synonym instances = "(uuid \<times> UserAccount option) list"

fun create_user_instance_loop ::
  "gateway \<Rightarrow> mobile_results \<Rightarrow> uuid list \<Rightarrow> instances \<Rightarrow> call list
     \<Rightarrow> (error + instances) \<times> call list" where
  "create_user_instance_loop gw mobile_access [] instances log = (Inr instances, log)"
| "create_user_instance_loop gw mobile_access (user # rest) instances log =
     (case check_account_providers gw log user of
        (None, log1) \<Rightarrow>
          create_user_instance_loop gw mobile_access rest
            (AList.update user None instances) log1
      | (Some accounts, log1) \<Rightarrow>
          (case scan_accounts accounts (Some ''not_found'') [] of
             (parabilium_internal_id, spei) \<Rightarrow>
               (case (if parabilium_internal_id = Some ''not_found'' then (Some [], log1)
                      else check_cards gw log1 parabilium_internal_id) of
                  (None, log2) \<Rightarrow>
                    create_user_instance_loop gw mobile_access rest
                      (AList.update user None instances) log2
                | (Some listing, log2) \<Rightarrow>
                    (case mobile_access user of
                       None \<Rightarrow> (Inl KeyError, log2)
                     | Some mobile \<Rightarrow>
                         (case parabilium_internal_id of
                            None \<Rightarrow> (Inl ValidationError, log2)
                          | Some pid \<Rightarrow>
                              create_user_instance_loop gw mobile_access rest
                                (AList.update user
                                   (Some \<lparr> user_id = user, parabilium_account_id = pid,
                                           active_spei = spei, has_mobile_access = mobile,
                                           cards = map (make_card user) listing \<rparr>)
                                   instances)
                                log2)))))"

text \<open>\<open>create_user_instance\<close> calls \<open>check_mobile_access\<close> with its default \<open>batch_size = 10\<close>.\<close>

definition create_user_instance ::
  "gateway \<Rightarrow> call list \<Rightarrow> uuid list \<Rightarrow> (error + instances) \<times> call list" where
  "create_user_instance gw log user_ids =
     (case check_mobile_access gw log user_ids 10 of
        (mobile_access, log1) \<Rightarrow> create_user_instance_loop gw mobile_access user_ids [] log1)"

text \<open>
  \<open>create_user_instance_batch\<close>. The chunks are
  \<open>[list(islice(user_id_, batch_size)) for _ in range((len(user_id) + batch_size - 1) // batch_size)]\<close>.
  \<open>Pool.map\<close> returns the results in the order of the chunks; the model runs the chunks one
  after the other in that order and stops at the first one that raises, so the interleaving
  of the workers' requests is not modelled. The Account Store \<open>self.users\<close> is a dict; after
  a run that raises it is what it was.
\<close>

fun islice_chunks :: "nat \<Rightarrow> nat \<Rightarrow> uuid list \<Rightarrow> uuid list list" where
  "islice_chunks batch_size 0 user_ids = []"
| "islice_chunks batch_size (Suc n) user_ids =
     take batch_size user_ids # islice_chunks batch_size n (drop batch_size user_ids)"

fun pool_map :: "gateway \<Rightarrow> call list \<Rightarrow> uuid list list \<Rightarrow> (error + instances list) \<times> call list"
  where
  "pool_map gw log [] = (Inr [], log)"
| "pool_map gw log (chunk # chunks) =
     (case create_user_instance gw log chunk of
        (Inl e, log1) \<Rightarrow> (Inl e, log1)
      | (Inr dictionary, log1) \<Rightarrow>
          (case pool_map gw log1 chunks of
             (Inl e, log2) \<Rightarrow> (Inl e, log2)
           | (Inr results, log2) \<Rightarrow> (Inr (dictionary # results), log2)))"

definition dict_update :: "instances \<Rightarrow> instances \<Rightarrow> instances" where
  "dict_update dictionary users = fold (\<lambda>(k, v). AList.update k v) dictionary users"

definition create_user_instance_batch ::
  "gateway \<Rightarrow> call list \<Rightarrow> instances \<Rightarrow> uuid list \<Rightarrow> nat \<Rightarrow> nat
     \<Rightarrow> (error + instances list) \<times> instances \<times> call list" where
  "create_user_instance_batch gw log users user_ids batch_size n_process =
     (if batch_size = 0 then (Inl ZeroDivisionError, users, log)
      else if n_process = 0 then (Inl ValueError, users, log)
      else
        (case pool_map gw log
                (islice_chunks batch_size
                   ((length user_ids + batch_size - 1) div batch_size) user_ids) of
           (Inl e, log') \<Rightarrow> (Inl e, users, log')
         | (Inr results, log') \<Rightarrow> (Inr results, fold dict_update results users, log')))"

text \<open>
  \<open>refresh_all_data\<close> calls \<open>create_user_instance\<close> and drops what it returns; it does not
  assign to \<open>self.users\<close>. Its result is the exception, if any, and the log.
\<close>

definition refresh_all_data ::
  "gateway \<Rightarrow> call list \<Rightarrow> instances \<Rightarrow> error option \<times> call list" where
  "refresh_all_data gw log users =
     (let users_to_refresh = map fst users
      in if length users_to_refresh > 0 then
           (case create_user_instance gw log users_to_refresh of
              (Inl e, log') \<Rightarrow> (Some e, log')
            | (Inr instances, log') \<Rightarrow> (None, log'))
         else (None, log))"

text \<open>
  \<open>block_all\<close> cancels the values of \<open>self.users\<close> in the order of the dict. The accounts are
  mutated in place, so the Store holds each account as cancellation left it; a value \<open>None\<close>
  makes \<open>user.user_id\<close> raise, after the accounts before it were cancelled.
\<close>

fun block_all_loop ::
  "gateway \<Rightarrow> call list \<Rightarrow> instances \<Rightarrow> error option \<times> instances \<times> call list" where
  "block_all_loop gw log [] = (None, [], log)"
| "block_all_loop gw log ((k, None) # rest) = (Some AttributeError, (k, None) # rest, log)"
| "block_all_loop gw log ((k, Some user) # rest) =
     (case cancel_account gw log user of
        (user', log1) \<Rightarrow>
          (case block_all_loop gw log1 rest of
             (err, rest', log2) \<Rightarrow> (err, (k, Some user') # rest', log2)))"

definition block_all ::
  "gateway \<Rightarrow> call list \<Rightarrow> instances \<Rightarrow> bool \<Rightarrow> error option \<times> instances \<times> call list" where
  "block_all gw log users refresh =
     (case block_all_loop gw log users of
        (Some e, users', log') \<Rightarrow> (Some e, users', log')
      | (None, users', log') \<Rightarrow>
          (if refresh then
             (case refresh_all_data gw log' users' of (err, log'') \<Rightarrow> (err, users', log''))
           else (None, users', log')))"

section \<open>Sequences of cancellation steps\<close>




section \<open>Notions used in the statements\<close>

text \<open>The kinds of request in a log, and the batch a mobile-entitlement request carries.\<close>

fun is_card_call :: "call \<Rightarrow> bool" where
  "is_card_call (UpdateCardStatus k t r) = True"
| "is_card_call (DeleteVirtualCard k r) = True"
| "is_card_call c = False"

fun is_lock_call :: "call \<Rightarrow> bool" where
  "is_lock_call (BlockMobileAccess u r) = True"
| "is_lock_call c = False"

fun is_spei_call :: "call \<Rightarrow> bool" where
  "is_spei_call (BlockSpei u s r) = True"
| "is_spei_call c = False"



text \<open>
  What cancellation can have done to one active card, given the requests \<open>ext\<close> it issued:
  the identifiers and the type are kept, and the status is kept after a failed request, or
  is \<open>CANCELED\<close> after a successful delete of a virtual card, or is \<open>FROZEN_PERMANENT\<close>
  after a successful status change of a card that is not virtual.
\<close>

definition card_outcome :: "call list \<Rightarrow> UserCard \<Rightarrow> UserCard \<Rightarrow> bool" where
  "card_outcome ext c c' \<longleftrightarrow>
     card_user_id c' = card_user_id c \<and> klrid c' = klrid c \<and> card_type c' = card_type c \<and>
     (card_status c' = card_status c
        \<and> (card_type c = VIRTUAL \<and> DeleteVirtualCard (klrid c) False \<in> set ext
           \<or> card_type c = PHYSICAL
              \<and> UpdateCardStatus (klrid c) T_FROZEN_PERMANENT False \<in> set ext)
      \<or> card_type c = VIRTUAL \<and> card_status c' = CANCELED
          \<and> DeleteVirtualCard (klrid c) True \<in> set ext
      \<or> card_type c = PHYSICAL \<and> card_status c' = FROZEN_PERMANENT
          \<and> UpdateCardStatus (klrid c) T_FROZEN_PERMANENT True \<in> set ext)"



section \<open>Sample services and accounts\<close>

text \<open>
  \<open>gw_const ok\<close>: every request succeeds (\<open>ok\<close>) or fails; a successful linking listing and
  card listing are empty, and a successful entitlement response reports every requested id
  as enabled.
\<close>

definition gw_const :: "bool \<Rightarrow> gateway" where
  "gw_const ok =
     \<lparr> gw_account_providers = (\<lambda>log u. if ok then Some [] else None),
       gw_cards = (\<lambda>log pid. if ok then Some [] else None),
       gw_update_card_status = (\<lambda>log k t. ok),
       gw_delete_virtual_card = (\<lambda>log k. ok),
       gw_is_enabled = (\<lambda>log batch. if ok then Some (map (\<lambda>u. (u, True)) batch) else None),
       gw_lock_mobile_access = (\<lambda>log u. ok),
       gw_deactivate_spei = (\<lambda>log u s. ok) \<rparr>"

definition sample_card :: "uuid \<Rightarrow> card_status \<Rightarrow> card_type \<Rightarrow> UserCard" where
  "sample_card k st ty =
     \<lparr> card_user_id = Some ''u1'', klrid = k, card_status = st, card_type = ty \<rparr>"

definition sample_account :: UserAccount where
  "sample_account =
     \<lparr> user_id = ''u1'', parabilium_account_id = ''a1'', active_spei = [''r1'', ''r2'', ''r3''],
       has_mobile_access = Some True,
       cards = [sample_card ''k1'' ACTIVE PHYSICAL, sample_card ''k2'' FROZEN VIRTUAL,
                sample_card ''k3'' DELETED VIRTUAL] \<rparr>"

definition sample_account_cancelled :: UserAccount where
  "sample_account_cancelled =
     \<lparr> user_id = ''u1'', parabilium_account_id = ''a1'', active_spei = [''r2''],
       has_mobile_access = Some False,
       cards = [sample_card ''k1'' FROZEN_PERMANENT PHYSICAL, sample_card ''k2'' CANCELED VIRTUAL,
                sample_card ''k3'' DELETED VIRTUAL] \<rparr>"

definition sample_cancel_log :: "call list" where
  "sample_cancel_log =
     [BlockMobileAccess ''u1'' True, BlockSpei ''u1'' ''r1'' True, BlockSpei ''u1'' ''r3'' True,
      UpdateCardStatus ''k1'' T_FROZEN_PERMANENT True, DeleteVirtualCard ''k2'' True]"

text \<open>
  The services of the specification's scenario: the linking listing of every user has one
  entry tagged \<open>SPEI\<close> (internal id \<open>r1\<close>) and one tagged \<open>PARABILIUM\<close> (internal id \<open>a1\<close>),
  the card listing has an active physical and a frozen virtual card, and every other request
  succeeds.
\<close>

definition gw_scenario :: gateway where
  "gw_scenario =
     \<lparr> gw_account_providers =
         (\<lambda>log u. Some [\<lparr> providerId = Some ''SPEI'', internalId = Some ''r1'' \<rparr>,
                         \<lparr> providerId = Some ''PARABILIUM'', internalId = Some ''a1'' \<rparr>]),
       gw_cards =
         (\<lambda>log pid. Some [\<lparr> ce_id = ''k1'', ce_status = ACTIVE, ce_cardType = PHYSICAL \<rparr>,
                           \<lparr> ce_id = ''k2'', ce_status = FROZEN, ce_cardType = VIRTUAL \<rparr>]),
       gw_update_card_status = (\<lambda>log k t. True),
       gw_delete_virtual_card = (\<lambda>log k. True),
       gw_is_enabled = (\<lambda>log batch. Some (map (\<lambda>u. (u, True)) batch)),
       gw_lock_mobile_access = (\<lambda>log u. True),
       gw_deactivate_spei = (\<lambda>log u s. True) \<rparr>"

definition scenario_account :: "uuid \<Rightarrow> UserAccount" where
  "scenario_account u =
     \<lparr> user_id = u, parabilium_account_id = ''a1'', active_spei = [''r1''],
       has_mobile_access = Some True,
       cards = [\<lparr> card_user_id = Some u, klrid = ''k1'', card_status = ACTIVE,
                  card_type = PHYSICAL \<rparr>,
                \<lparr> card_user_id = Some u, klrid = ''k2'', card_status = FROZEN,
                  card_type = VIRTUAL \<rparr>] \<rparr>"

text \<open>The same services, except that the linking listing has two \<open>SPEI\<close> entries with one id.\<close>

definition gw_twice_spei :: gateway where
  "gw_twice_spei =
     gw_scenario \<lparr> gw_account_providers :=
       (\<lambda>log u. Some [\<lparr> providerId = Some ''SPEI'', internalId = Some ''r1'' \<rparr>,
                       \<lparr> providerId = Some ''SPEI'', internalId = Some ''r1'' \<rparr>]) \<rparr>"

text \<open>The same services, except that a successful entitlement response has no entry.\<close>

definition gw_no_entries :: gateway where
  "gw_no_entries = gw_scenario \<lparr> gw_is_enabled := (\<lambda>log batch. Some []) \<rparr>"

text \<open>The same services, except that the \<open>PARABILIUM\<close> entry has no \<open>internalId\<close>.\<close>

definition gw_null_link :: gateway where
  "gw_null_link =
     gw_scenario \<lparr> gw_account_providers :=
       (\<lambda>log u. Some [\<lparr> providerId = Some ''PARABILIUM'', internalId = None \<rparr>]) \<rparr>"

text \<open>An account with two payment rails and nothing else, and an account with nothing.\<close>

definition two_rail_account :: UserAccount where
  "two_rail_account =
     \<lparr> user_id = ''u1'', parabilium_account_id = ''not_found'', active_spei = [''r1'', ''r2''],
       has_mobile_access = None, cards = [] \<rparr>"

definition bare_account :: "uuid \<Rightarrow> UserAccount" where
  "bare_account u =
     \<lparr> user_id = u, parabilium_account_id = ''not_found'', active_spei = [],
       has_mobile_access = Some True, cards = [] \<rparr>"

definition eleven_ids :: "uuid list" where
  "eleven_ids = [''u01'', ''u02'', ''u03'', ''u04'', ''u05'', ''u06'', ''u07'', ''u08'',
                 ''u09'', ''u10'', ''u11'']"

text \<open>The definitions a run on concrete data unfolds.\<close>

named_theorems run_defs

lemmas [run_defs] =
  check_account_providers_def check_cards_def update_card_status_def delete_virtual_card_def
  block_mobile_access_def block_spei_def delete_def frozen_permanent_def cancel_def
  block_mobile_user_account_def block_spei_loop.simps block_spei_user_account_def
  active_card_refs_def block_cards_user_account_def cancel_account_def
  check_mobile_access_loop.simps check_mobile_access_def make_card_def
  create_user_instance_def dict_update_def create_user_instance_batch_def
  refresh_all_data_def block_all_def Let_def
  gw_const_def gw_scenario_def gw_twice_spei_def gw_no_entries_def gw_null_link_def
  sample_card_def sample_account_def sample_account_cancelled_def sample_cancel_log_def
  scenario_account_def two_rail_account_def bare_account_def eleven_ids_def

section \<open>Card cancellation\<close>

lemma card_outcome_trans:
  "card_outcome e1 c c' \<Longrightarrow> card_outcome e2 c' c'' \<Longrightarrow> card_outcome (e1 @ e2) c c''"
  unfolding card_outcome_def by auto

lemma card_outcome_appendL: "card_outcome e2 c c' \<Longrightarrow> card_outcome (e1 @ e2) c c'"
  unfolding card_outcome_def by auto

lemma card_outcome_appendR: "card_outcome e1 c c' \<Longrightarrow> card_outcome (e1 @ e2) c c'"
  unfolding card_outcome_def by auto

lemma cancel_outcome:
  assumes "cancel gw log c = (c', log')"
  shows "\<exists>ext. log' = log @ ext \<and> card_outcome ext c c' \<and> list_all is_card_call ext"
proof (cases "card_type c")
  case VIRTUAL
  with assms show ?thesis
    by (auto simp: cancel_def delete_def delete_virtual_card_def Let_def card_outcome_def
        split: if_splits)
next
  case PHYSICAL
  with assms show ?thesis
    by (auto simp: cancel_def frozen_permanent_def update_card_status_def Let_def
        card_outcome_def split: if_splits)
qed

lemma cancel_cards_loop_outcome:
  assumes "cancel_cards_loop gw log refs cs = (cs', log')"
  shows "\<exists>ext. log' = log @ ext \<and> length cs' = length cs \<and> list_all is_card_call ext
          \<and> (\<forall>i<length cs. i \<in> set refs \<longrightarrow> card_outcome ext (cs ! i) (cs' ! i))
          \<and> (\<forall>i. i \<notin> set refs \<longrightarrow> cs' ! i = cs ! i)"
  using assms
proof (induction refs arbitrary: log cs)
  case Nil
  then show ?case by auto
next
  case (Cons r refs)
  obtain c1 log1 where c1: "cancel gw log (cs ! r) = (c1, log1)"
    by (cases "cancel gw log (cs ! r)")
  from cancel_outcome [OF c1] obtain e1 where
    e1: "log1 = log @ e1" "card_outcome e1 (cs ! r) c1" "list_all is_card_call e1" by blast
  from Cons.prems c1 have rest: "cancel_cards_loop gw log1 refs (cs[r := c1]) = (cs', log')"
    by simp
  from Cons.IH [OF rest] obtain e2 where
    e2: "log' = log1 @ e2" "length cs' = length (cs[r := c1])" "list_all is_card_call e2"
      "\<forall>i<length (cs[r := c1]). i \<in> set refs
          \<longrightarrow> card_outcome e2 (cs[r := c1] ! i) (cs' ! i)"
      "\<forall>i. i \<notin> set refs \<longrightarrow> cs' ! i = cs[r := c1] ! i"
    by blast
  have "\<forall>i<length cs. i \<in> set (r # refs) \<longrightarrow> card_outcome (e1 @ e2) (cs ! i) (cs' ! i)"
  proof (intro allI impI)
    fix i assume i: "i < length cs" "i \<in> set (r # refs)"
    show "card_outcome (e1 @ e2) (cs ! i) (cs' ! i)"
    proof (cases "i = r")
      case True
      show ?thesis
      proof (cases "r \<in> set refs")
        case True
        with i \<open>i = r\<close> e2(4) have "card_outcome e2 c1 (cs' ! i)" by auto
        with e1(2) \<open>i = r\<close> show ?thesis by (auto intro: card_outcome_trans)
      next
        case False
        with i \<open>i = r\<close> e2(5) have "cs' ! i = c1" by auto
        with e1(2) \<open>i = r\<close> show ?thesis by (auto intro: card_outcome_appendR)
      qed
    next
      case False
      with i e2(4) have "card_outcome e2 (cs ! i) (cs' ! i)" by auto
      then show ?thesis by (rule card_outcome_appendL)
    qed
  qed
  moreover have "\<forall>i. i \<notin> set (r # refs) \<longrightarrow> cs' ! i = cs ! i"
    using e2(5) by auto
  ultimately show ?case using e1(1,3) e2(1,2,3) by auto
qed

lemma active_card_refs_loop_iff:
  "r \<in> set (active_card_refs_loop cs i acc) \<longleftrightarrow>
     r \<in> set acc \<or> (i \<le> r \<and> r - i < length cs
        \<and> card_status (cs ! (r - i)) \<in> {ACTIVE, FROZEN, ACTIVATED_NO_PIN, CREATED, SHIPPED})"
proof (induction cs arbitrary: i acc r)
  case Nil
  then show ?case by simp
next
  case (Cons c cs)
  have nth: "i < r \<Longrightarrow> (c # cs) ! (r - i) = cs ! (r - Suc i)"
    by (simp add: nth_Cons')
  show ?case
  proof (cases "r = i")
    case True
    then show ?thesis by (auto simp: Cons.IH)
  next
    case False
    then have "i \<le> r \<longleftrightarrow> Suc i \<le> r" by arith
    moreover have "Suc i \<le> r \<Longrightarrow> r - i < Suc (length cs) \<longleftrightarrow> r - Suc i < length cs" by arith
    ultimately show ?thesis using False nth
      by (auto simp: Cons.IH)
  qed
qed

lemma active_card_refs_iff:
  "r \<in> set (active_card_refs u) \<longleftrightarrow>
     r < length (cards u)
     \<and> card_status (cards u ! r) \<in> {ACTIVE, FROZEN, ACTIVATED_NO_PIN, CREATED, SHIPPED}"
  by (simp add: active_card_refs_def active_card_refs_loop_iff)

text \<open>The positions collected are those of the cards \<open>get_active_cards\<close> returns.\<close>

lemma active_card_refs_loop_cards:
  "drop i full = cs \<Longrightarrow>
     map (\<lambda>r. full ! r) (active_card_refs_loop cs i acc)
       = get_active_cards_loop cs (map (\<lambda>r. full ! r) acc)"
proof (induction cs arbitrary: i acc)
  case Nil
  then show ?case by simp
next
  case (Cons c cs)
  then have i: "i < length full"
    by (metis drop_all list.distinct(1) not_le)
  with Cons.prems have c: "full ! i = c" and rest: "drop (Suc i) full = cs"
    by (simp_all add: Cons_nth_drop_Suc [symmetric])
  show ?case
    using Cons.IH [OF rest, of "acc @ [i]"] Cons.IH [OF rest, of acc] c by simp
qed

lemma active_card_refs_cards:
  "map (\<lambda>r. cards u ! r) (active_card_refs u) = get_active_cards u"
  using active_card_refs_loop_cards [of 0 "cards u" "cards u" "[]"]
  by (simp add: active_card_refs_def get_active_cards_def)

lemma block_cards_user_account_outcome:
  assumes "block_cards_user_account gw log u = (u', log')"
  shows "\<exists>ext. log' = log @ ext \<and> list_all is_card_call ext
          \<and> user_id u' = user_id u \<and> parabilium_account_id u' = parabilium_account_id u
          \<and> active_spei u' = active_spei u \<and> has_mobile_access u' = has_mobile_access u
          \<and> length (cards u') = length (cards u)
          \<and> (\<forall>i<length (cards u).
                if card_status (cards u ! i) \<in> {ACTIVE, FROZEN, ACTIVATED_NO_PIN, CREATED, SHIPPED}
                then card_outcome ext (cards u ! i) (cards u' ! i)
                else cards u' ! i = cards u ! i)"
proof -
  obtain cs' where cs': "cancel_cards_loop gw log (active_card_refs u) (cards u) = (cs', log')"
    and u': "u' = u\<lparr>cards := cs'\<rparr>"
    using assms by (auto simp: block_cards_user_account_def split: prod.splits)
  from cancel_cards_loop_outcome [OF cs'] obtain ext where
    ext: "log' = log @ ext" "length cs' = length (cards u)" "list_all is_card_call ext"
      "\<forall>i<length (cards u). i \<in> set (active_card_refs u)
          \<longrightarrow> card_outcome ext (cards u ! i) (cs' ! i)"
      "\<forall>i. i \<notin> set (active_card_refs u) \<longrightarrow> cs' ! i = cards u ! i"
    by blast
  show ?thesis
    using ext u' by (intro exI [of _ ext]) (simp add: active_card_refs_iff)
qed

lemma block_mobile_user_account_outcome:
  assumes "block_mobile_user_account gw log u = (u', log')"
  shows "\<exists>ext. log' = log @ ext
          \<and> ext = (if has_mobile_access u = Some True
                   then [BlockMobileAccess (user_id u) (gw_lock_mobile_access gw log (user_id u))]
                   else [])
          \<and> user_id u' = user_id u \<and> parabilium_account_id u' = parabilium_account_id u
          \<and> active_spei u' = active_spei u \<and> cards u' = cards u
          \<and> has_mobile_access u' =
              (if has_mobile_access u = Some True \<and> gw_lock_mobile_access gw log (user_id u)
               then Some False else has_mobile_access u)"
  using assms
  by (auto simp: block_mobile_user_account_def block_mobile_access_def Let_def
      split: if_splits)

lemma block_spei_loop_outcome:
  "block_spei_loop gw u i spei log = (spei', log') \<Longrightarrow>
     \<exists>ext. log' = log @ ext \<and> list_all is_spei_call ext
       \<and> set spei' \<subseteq> set spei \<and> (distinct spei \<longrightarrow> distinct spei')"
proof (induction gw u i spei log rule: block_spei_loop.induct)
  case (1 gw u i spei log)
  show ?case
  proof (cases "i < length spei")
    case False
    with "1.prems" show ?thesis by (simp add: block_spei_loop.simps)
  next
    case True
    let ?x = "spei ! i"
    let ?r = "fst (block_spei gw log u ?x)"
    let ?l = "snd (block_spei gw log u ?x)"
    let ?s = "if ?r then remove1 ?x spei else spei"
    from True "1.prems" have rec: "block_spei_loop gw u (Suc i) ?s ?l = (spei', log')"
      by (simp add: block_spei_loop.simps [of gw u i] Let_def)
    from "1.IH" [OF True refl refl refl rec] obtain e2 where
      e2: "log' = ?l @ e2" "list_all is_spei_call e2" "set spei' \<subseteq> set ?s"
        "distinct ?s \<longrightarrow> distinct spei'" by blast
    have l: "?l = log @ [BlockSpei u ?x ?r]"
      by (simp add: block_spei_def Let_def)
    have sub: "set ?s \<subseteq> set spei" using set_remove1_subset [of ?x spei] by auto
    have dist: "distinct spei \<longrightarrow> distinct ?s" by auto
    show ?thesis
      using e2 l sub dist by (intro exI [of _ "BlockSpei u ?x ?r # e2"]) auto
  qed
qed

lemma block_spei_user_account_outcome:
  assumes "block_spei_user_account gw log u = (u', log')"
  shows "\<exists>ext. log' = log @ ext \<and> list_all is_spei_call ext
          \<and> user_id u' = user_id u \<and> parabilium_account_id u' = parabilium_account_id u
          \<and> has_mobile_access u' = has_mobile_access u \<and> cards u' = cards u
          \<and> set (active_spei u') \<subseteq> set (active_spei u)
          \<and> (distinct (active_spei u) \<longrightarrow> distinct (active_spei u'))"
proof -
  obtain s' where s': "block_spei_loop gw (user_id u) 0 (active_spei u) log = (s', log')"
    and u': "u' = u\<lparr>active_spei := s'\<rparr>"
    using assms by (auto simp: block_spei_user_account_def split: prod.splits)
  from block_spei_loop_outcome [OF s'] u' show ?thesis by auto
qed

section \<open>The three phases together\<close>

lemma cancel_account_outcome:
  assumes "cancel_account gw log u = (u', log')"
  shows "\<exists>e1 e2 e3. log' = log @ e1 @ e2 @ e3
          \<and> e1 = (if has_mobile_access u = Some True
                  then [BlockMobileAccess (user_id u) (gw_lock_mobile_access gw log (user_id u))]
                  else [])
          \<and> list_all is_spei_call e2 \<and> list_all is_card_call e3
          \<and> user_id u' = user_id u \<and> parabilium_account_id u' = parabilium_account_id u
          \<and> has_mobile_access u' =
              (if has_mobile_access u = Some True \<and> gw_lock_mobile_access gw log (user_id u)
               then Some False else has_mobile_access u)
          \<and> set (active_spei u') \<subseteq> set (active_spei u)
          \<and> (distinct (active_spei u) \<longrightarrow> distinct (active_spei u'))
          \<and> length (cards u') = length (cards u)
          \<and> (\<forall>i<length (cards u).
                if card_status (cards u ! i) \<in> {ACTIVE, FROZEN, ACTIVATED_NO_PIN, CREATED, SHIPPED}
                then card_outcome e3 (cards u ! i) (cards u' ! i)
                else cards u' ! i = cards u ! i)"
proof -
  obtain u1 log1 where p1: "block_mobile_user_account gw log u = (u1, log1)"
    by (cases "block_mobile_user_account gw log u")
  obtain u2 log2 where p2: "block_spei_user_account gw log1 u1 = (u2, log2)"
    by (cases "block_spei_user_account gw log1 u1")
  from assms p1 p2 have p3: "block_cards_user_account gw log2 u2 = (u', log')"
    by (simp add: cancel_account_def)
  from block_mobile_user_account_outcome [OF p1] obtain e1 where
    e1: "log1 = log @ e1"
      "e1 = (if has_mobile_access u = Some True
             then [BlockMobileAccess (user_id u) (gw_lock_mobile_access gw log (user_id u))]
             else [])"
      "user_id u1 = user_id u" "parabilium_account_id u1 = parabilium_account_id u"
      "active_spei u1 = active_spei u" "cards u1 = cards u"
      "has_mobile_access u1 =
         (if has_mobile_access u = Some True \<and> gw_lock_mobile_access gw log (user_id u)
          then Some False else has_mobile_access u)"
    by blast
  from block_spei_user_account_outcome [OF p2] obtain e2 where
    e2: "log2 = log1 @ e2" "list_all is_spei_call e2"
      "user_id u2 = user_id u1" "parabilium_account_id u2 = parabilium_account_id u1"
      "has_mobile_access u2 = has_mobile_access u1" "cards u2 = cards u1"
      "set (active_spei u2) \<subseteq> set (active_spei u1)"
      "distinct (active_spei u1) \<longrightarrow> distinct (active_spei u2)"
    by blast
  from block_cards_user_account_outcome [OF p3] obtain e3 where
    e3: "log' = log2 @ e3" "list_all is_card_call e3"
      "user_id u' = user_id u2" "parabilium_account_id u' = parabilium_account_id u2"
      "active_spei u' = active_spei u2" "has_mobile_access u' = has_mobile_access u2"
      "length (cards u') = length (cards u2)"
      "\<forall>i<length (cards u2).
          if card_status (cards u2 ! i) \<in> {ACTIVE, FROZEN, ACTIVATED_NO_PIN, CREATED, SHIPPED}
          then card_outcome e3 (cards u2 ! i) (cards u' ! i)
          else cards u' ! i = cards u2 ! i"
    by blast
  have c2: "cards u2 = cards u" using e1(6) e2(6) by simp
  note cs = e3(8) [unfolded c2]
  have "log' = log @ e1 @ e2 @ e3" using e1(1) e2(1) e3(1) by simp
  moreover have "user_id u' = user_id u" "parabilium_account_id u' = parabilium_account_id u"
    using e1(3,4) e2(3,4) e3(3,4) by simp_all
  moreover have "has_mobile_access u' =
      (if has_mobile_access u = Some True \<and> gw_lock_mobile_access gw log (user_id u)
       then Some False else has_mobile_access u)"
    using e1(7) e2(5) e3(6) by simp
  moreover have "set (active_spei u') \<subseteq> set (active_spei u)"
    "distinct (active_spei u) \<longrightarrow> distinct (active_spei u')"
    using e1(5) e2(7,8) e3(5) by simp_all
  moreover have "length (cards u') = length (cards u)" using e3(7) c2 by simp
  ultimately show ?thesis
    using e1(2) e2(2) e3(2) cs by blast
qed

section \<open>The mobile-entitlement lookup\<close>






section \<open>The fetch loop\<close>







section \<open>The active predicate\<close>

lemma spec_active_iff:
  "spec_active c \<longleftrightarrow> card_status c \<in> {ACTIVE, FROZEN, ACTIVATED_NO_PIN, CREATED, SHIPPED}"
  by (cases "card_status c") (simp_all add: spec_active_def)

lemma spec_inactive_iff:
  "\<not> spec_active c \<longleftrightarrow>
     card_status c \<in> {BROKEN, CANCELED, DEACTIVATED, DELETED, FROZEN_PERMANENT, LOST,
                      REORDERED_KLAYUDA, STOLEN}"
  by (cases "card_status c") (simp_all add: spec_active_def)

lemma get_active_cards_loop_filter:
  "get_active_cards_loop cs acc = acc @ filter spec_active cs"
  by (induction cs arbitrary: acc) (simp_all add: spec_active_iff)

lemma has_active_cards_loop_ex:
  "has_active_cards_loop cs flag \<longleftrightarrow> flag \<or> (\<exists>c\<in>set cs. spec_active c)"
  by (induction cs) (auto simp: spec_active_iff)

text \<open>
  Claim C7. A card is active iff its status is one of \<open>ACTIVE\<close>, \<open>FROZEN\<close>,
  \<open>ACTIVATED_NO_PIN\<close>, \<open>CREATED\<close>, \<open>SHIPPED\<close>, so it is not active iff its status is \<open>DELETED\<close>
  or one of the seven other statuses; \<open>get_active_cards\<close> returns exactly the active cards
  of the account, in order, and \<open>has_active_cards\<close> of the summary says whether there is one.
\<close>

theorem active_predicate:
  "(spec_active c \<longleftrightarrow> card_status c \<in> {ACTIVE, FROZEN, ACTIVATED_NO_PIN, CREATED, SHIPPED})
   \<and> (\<not> spec_active c \<longleftrightarrow>
        card_status c \<in> {BROKEN, CANCELED, DEACTIVATED, DELETED, FROZEN_PERMANENT, LOST,
                         REORDERED_KLAYUDA, STOLEN})
   \<and> get_active_cards u = filter spec_active (cards u)
   \<and> s_has_active_cards (check_active_services u) = (\<exists>c\<in>set (cards u). spec_active c)"
  using spec_active_iff [of c] spec_inactive_iff [of c]
  by (simp add: get_active_cards_def get_active_cards_loop_filter check_active_services_def
      has_active_cards_loop_ex)

text \<open>The sample account: two of its three cards are active, the \<open>DELETED\<close> one is not.\<close>

theorem active_predicate_witness:
  "get_active_cards sample_account
     = [sample_card ''k1'' ACTIVE PHYSICAL, sample_card ''k2'' FROZEN VIRTUAL]
   \<and> s_has_active_cards (check_active_services sample_account)
   \<and> \<not> spec_active (sample_card ''k3'' DELETED VIRTUAL)
   \<and> spec_active (sample_card ''k4'' SHIPPED PHYSICAL)
   \<and> spec_active (sample_card ''k5'' CREATED PHYSICAL)
   \<and> spec_active (sample_card ''k6'' ACTIVATED_NO_PIN PHYSICAL)"
  using active_predicate [of "sample_card ''k3'' DELETED VIRTUAL" sample_account]
    active_predicate [of "sample_card ''k4'' SHIPPED PHYSICAL" sample_account]
    active_predicate [of "sample_card ''k5'' CREATED PHYSICAL" sample_account]
    active_predicate [of "sample_card ''k6'' ACTIVATED_NO_PIN PHYSICAL" sample_account]
  by (simp add: sample_account_def sample_card_def spec_active_def)

section \<open>Deleting a physical card\<close>

text \<open>
  Claim C10. \<open>delete\<close> on a card whose type is \<open>PHYSICAL\<close> does nothing: the card is
  returned as it was, with every field unchanged, and the log is the log before the call, so
  no request was issued; the function has no branch that raises.
\<close>

theorem delete_physical_noop:
  "card_type c = PHYSICAL \<Longrightarrow> delete gw log c = (c, log)"
  by (simp add: delete_def)

text \<open>A physical card of the sample account.\<close>

theorem delete_physical_noop_witness:
  "card_type (sample_card ''k1'' ACTIVE PHYSICAL) = PHYSICAL
   \<and> delete (gw_const True) [] (sample_card ''k1'' ACTIVE PHYSICAL)
       = (sample_card ''k1'' ACTIVE PHYSICAL, [])"
proof -
  have h: "card_type (sample_card ''k1'' ACTIVE PHYSICAL) = PHYSICAL"
    by (simp add: sample_card_def)
  from delete_physical_noop [OF h, of "gw_const True" "[]"] h show ?thesis by simp
qed

section \<open>Cancellation of one account\<close>

lemma spei_calls_no_lock: "list_all is_spei_call e \<Longrightarrow> filter is_lock_call e = []"
proof (induction e)
  case Nil
  then show ?case by simp
next
  case (Cons c e)
  then show ?case by (cases c) simp_all
qed

lemma card_calls_no_lock: "list_all is_card_call e \<Longrightarrow> filter is_lock_call e = []"
proof (induction e)
  case Nil
  then show ?case by simp
next
  case (Cons c e)
  then show ?case by (cases c) simp_all
qed

lemma sample_cancel_run:
  "cancel_account (gw_const True) [] sample_account = (sample_account_cancelled, sample_cancel_log)"
  by (simp add: run_defs)

text \<open>
  Claim C5. After \<open>cancel_account\<close>, \<open>has_mobile_access\<close> is \<open>False\<close> if it was \<open>True\<close> before
  and the lock request succeeded, and otherwise it is what it was; the lock request is issued
  once when \<open>has_mobile_access\<close> was \<open>True\<close> and not at all otherwise.
\<close>

theorem cancel_mobile_access:
  assumes "cancel_account gw log u = (u', log')"
  shows "has_mobile_access u' =
           (if has_mobile_access u = Some True \<and> gw_lock_mobile_access gw log (user_id u)
            then Some False else has_mobile_access u)
         \<and> (\<exists>ext. log' = log @ ext
              \<and> filter is_lock_call ext =
                  (if has_mobile_access u = Some True
                   then [BlockMobileAccess (user_id u) (gw_lock_mobile_access gw log (user_id u))]
                   else []))"
proof -
  from cancel_account_outcome [OF assms] obtain e1 e2 e3 where
    log': "log' = log @ e1 @ e2 @ e3"
    and e1: "e1 = (if has_mobile_access u = Some True
                   then [BlockMobileAccess (user_id u) (gw_lock_mobile_access gw log (user_id u))]
                   else [])"
    and e2: "list_all is_spei_call e2" and e3: "list_all is_card_call e3"
    and mob: "has_mobile_access u' =
                (if has_mobile_access u = Some True \<and> gw_lock_mobile_access gw log (user_id u)
                 then Some False else has_mobile_access u)"
    by blast
  have "filter is_lock_call e1 = e1" using e1 by simp
  then have "filter is_lock_call (e1 @ e2 @ e3) = e1"
    using spei_calls_no_lock [OF e2] card_calls_no_lock [OF e3] by simp
  with log' e1 mob show ?thesis by blast
qed

text \<open>The sample account with every request succeeding.\<close>

theorem cancel_mobile_access_witness:
  "cancel_account (gw_const True) [] sample_account = (sample_account_cancelled, sample_cancel_log)
   \<and> has_mobile_access sample_account = Some True
   \<and> has_mobile_access sample_account_cancelled = Some False
   \<and> filter is_lock_call sample_cancel_log = [BlockMobileAccess ''u1'' True]"
proof -
  have run: "cancel_account (gw_const True) [] sample_account
      = (sample_account_cancelled, sample_cancel_log)"
    by (simp add: run_defs)
  from cancel_mobile_access [OF run] run show ?thesis
    by (simp add: sample_account_def sample_account_cancelled_def sample_cancel_log_def
        gw_const_def)
qed

text \<open>
  Claim C6. The ids in \<open>active_spei\<close> after \<open>cancel_account\<close> are among the ids it held
  before: cancellation adds no rail id.
\<close>

theorem cancel_rails_subset:
  "set (active_spei (fst (cancel_account gw log u))) \<subseteq> set (active_spei u)"
proof -
  obtain u' log' where run: "cancel_account gw log u = (u', log')"
    by (cases "cancel_account gw log u")
  from cancel_account_outcome [OF run] have "set (active_spei u') \<subseteq> set (active_spei u)"
    by blast
  with run show ?thesis by simp
qed

text \<open>The sample account with every request succeeding: of three rails one is left.\<close>

theorem cancel_rails_subset_witness:
  "active_spei (fst (cancel_account (gw_const True) [] sample_account)) = [''r2'']
   \<and> active_spei sample_account = [''r1'', ''r2'', ''r3'']
   \<and> set [''r2''] \<subseteq> set [''r1'', ''r2'', ''r3'']"
proof -
  have run: "cancel_account (gw_const True) [] sample_account
      = (sample_account_cancelled, sample_cancel_log)"
    by (simp add: run_defs)
  from cancel_rails_subset [of "gw_const True" "[]" sample_account] run show ?thesis
    by (simp add: sample_account_def sample_account_cancelled_def)
qed



section \<open>The payment-rail phase on the live list\<close>

text \<open>
  Claim C1. The phase should request the deactivation of every id that was in
  \<open>active_spei\<close> when it started. On the account with the rails \<open>r1\<close> and \<open>r2\<close> and with
  every request succeeding, the loop of the source requests the deactivation of \<open>r1\<close> only:
  removing \<open>r1\<close> moves \<open>r2\<close> to position 0, the iterator goes on at position 1 and stops,
  and \<open>r2\<close> stays in the list without a request.
\<close>

theorem block_spei_skips_rail:
  "block_spei_user_account (gw_const True) [] two_rail_account
     = (two_rail_account\<lparr>active_spei := [''r2'']\<rparr>, [BlockSpei ''u1'' ''r1'' True])"
  by (simp add: run_defs)

section \<open>The Account Store\<close>

text \<open>
  Claim C2. A failed fetch should leave the entry of the Store for that user as it was. The
  Store holds an account for \<open>u2\<close> and every request fails: the batch fetch returns
  \<open>u2\<close> mapped to \<open>None\<close> and \<open>self.users.update\<close> writes that \<open>None\<close> over the account.
\<close>

theorem batch_fetch_overwrites_store_entry:
  "create_user_instance_batch (gw_const False) [] [(''u2'', Some (bare_account ''u2''))] [''u2''] 50 4
     = (Inr [[(''u2'', None)]], [(''u2'', None)],
        [CheckMobileAccess [''u2''] False, CheckAccountProviders ''u2'' False])"
  by (simp add: run_defs)

text \<open>Whether \<open>block_all\<close> is asked to refresh or not, the Store it leaves is the same.\<close>

lemma block_all_refresh_store:
  "fst (snd (block_all gw log users True)) = fst (snd (block_all gw log users False))"
  by (simp add: block_all_def split: prod.splits option.splits)

text \<open>
  Claim C3. With \<open>refresh\<close>, \<open>block_all\<close> should leave in the Store what the re-fetch
  returned. The Store holds for \<open>u1\<close> an account with no rail and no card, and the services
  are those of the scenario: \<open>block_all\<close> cancels the account and issues the requests of
  the re-fetch, but the Store keeps the cancelled account, not the account the fetch returns
  (one rail, two cards).
\<close>

theorem block_all_refresh_keeps_store:
  "block_all gw_scenario [] [(''u1'', Some (bare_account ''u1''))] True
     = (None, [(''u1'', Some ((bare_account ''u1'')\<lparr>has_mobile_access := Some False\<rparr>))],
        [BlockMobileAccess ''u1'' True, CheckMobileAccess [''u1''] True,
         CheckAccountProviders ''u1'' True, CheckCards (Some ''a1'') True])
   \<and> fst (create_user_instance gw_scenario [BlockMobileAccess ''u1'' True] [''u1''])
     = Inr [(''u1'', Some (scenario_account ''u1''))]"
  by (simp add: run_defs)

section \<open>Rails of a fetched account\<close>







section \<open>Chunks of the entitlement lookup and keys of the fetch\<close>



text \<open>
  The exceptions of the fetch: a successful entitlement response without an entry for the
  user makes \<open>mobile_access[user]\<close> raise \<open>KeyError\<close>, and a \<open>PARABILIUM\<close> entry without
  \<open>internalId\<close> makes the constructor of \<open>UserAccount\<close> raise \<open>ValidationError\<close>.
\<close>

lemma fetch_key_error_example:
  "fst (create_user_instance gw_no_entries [] [''u1'']) = Inl KeyError"
  by (simp add: run_defs)

lemma fetch_validation_error_example:
  "fst (create_user_instance gw_null_link [] [''u1'']) = Inl ValidationError"
  by (simp add: run_defs)




end
